theory Spec2Isabelle
  imports Main "HOL-Library.Word"
begin

unbundle bit_operations_syntax

section \<open>Bytes, buffers and errors\<close>

type_synonym byte = "8 word"
type_synonym bytes = "byte list"

text \<open>
  Go strings are byte sequences: \<open>len(str)\<close> counts bytes and \<open>string(data)\<close> of a byte
  slice keeps the bytes as they are, so a Go string is modelled as a list of bytes.
  A rune is an \<open>int32\<close>.
\<close>

type_synonym gostring = "byte list"
type_synonym rune = "32 word"

text \<open>
  Every error value the encoder and the decoder can return. \<open>EOF\<close> is \<open>io.EOF\<close> and
  \<open>ErrRange\<close> the package variable of that name; the others stand for the
  \<open>fmt.Errorf\<close> and \<open>errors.New\<close> calls, with the values they print.
\<close>

datatype error =
    EOF
  | ErrRange
  | ErrVersionTag byte
  | ErrUnhandledTarget string
  | ErrIntegerBytes nat
  | ErrBigInteger
  | ErrIncorrectType
  | ErrIncorrectTypeTag byte
  | ErrTruncatedData
  | ErrTruncatedList
  | ErrNoNil byte
  | ErrBertString byte
  | ErrNotTuple byte
  | ErrCountMismatch nat nat
  | ErrUnhandledType string string

section \<open>The tag catalogue\<close>

abbreviation (input) TagSmallInteger :: byte where "TagSmallInteger \<equiv> 97"
abbreviation (input) TagInteger :: byte where "TagInteger \<equiv> 98"
abbreviation (input) TagSmallTuple :: byte where "TagSmallTuple \<equiv> 104"
abbreviation (input) TagLargeTuple :: byte where "TagLargeTuple \<equiv> 105"
abbreviation (input) TagList :: byte where "TagList \<equiv> 108"
abbreviation (input) TagBinary :: byte where "TagBinary \<equiv> 109"
abbreviation (input) TagAtomUTF8 :: byte where "TagAtomUTF8 \<equiv> 118"
abbreviation (input) TagSmallAtomUTF8 :: byte where "TagSmallAtomUTF8 \<equiv> 119"
abbreviation (input) TagETFVersion :: byte where "TagETFVersion \<equiv> 131"

text \<open>
  Modelled from the spec: the decoder names four more tags, declared in a file of the
  package other than the encoder and the decoder. Their values are those of the Erlang
  External Term Format, which the tag table of the specification calls fixed: NIL_EXT is
  106 (the byte the encoder writes after a list), ATOM_EXT is 100 and STRING_EXT is 107
  (the bytes the decoder tests use for a legacy atom and a string), SMALL_BIG_EXT is 110.
\<close>

abbreviation (input) TagDeprecatedAtom :: byte where "TagDeprecatedAtom \<equiv> 100"
abbreviation (input) TagNil :: byte where "TagNil \<equiv> 106"
abbreviation (input) TagString :: byte where "TagString \<equiv> 107"
abbreviation (input) TagBigInteger :: byte where "TagBigInteger \<equiv> 110"

section \<open>Big-endian integers\<close>

text \<open>\<open>binary.Write(buf, binary.BigEndian, x)\<close> for a 16-bit and a 32-bit \<open>x\<close>.\<close>

definition be16 :: "16 word \<Rightarrow> bytes" where
  "be16 w = [ucast (drop_bit 8 w), ucast w]"

definition be32 :: "32 word \<Rightarrow> bytes" where
  "be32 w = [ucast (drop_bit 24 w), ucast (drop_bit 16 w), ucast (drop_bit 8 w), ucast w]"

text \<open>\<open>binary.BigEndian.Uint16\<close> and \<open>Uint32\<close>, called on slices of 2 and 4 bytes.\<close>

definition Uint16 :: "bytes \<Rightarrow> 16 word" where
  "Uint16 b = ucast (b ! 1) OR push_bit 8 (ucast (b ! 0))"

definition Uint32 :: "bytes \<Rightarrow> 32 word" where
  "Uint32 b = ucast (b ! 3) OR push_bit 8 (ucast (b ! 2)) OR push_bit 16 (ucast (b ! 1))
     OR push_bit 24 (ucast (b ! 0))"

section \<open>The encoder\<close>

text \<open>
  The values \<open>EncodeTo\<close> switches on. Each Go integer type keeps its width; \<open>int\<close> and
  \<open>uint\<close> are 64 bits wide. \<open>Slice\<close> is any value of slice kind, already turned into
  its elements as \<open>makeGenericSlice\<close> does (on a slice it cannot fail).
  \<open>Unhandled kind name\<close> is a value of any
  other type (\<open>int64\<close>, \<open>uint64\<close>, \<open>CharList\<close>, a map, ...), with the kind and the type
  name the error message prints.
\<close>

datatype goterm =
    Atom gostring
  | Str gostring
  | GoInt "64 word"
  | GoInt8 "8 word"
  | GoInt16 "16 word"
  | GoInt32 "32 word"
  | GoUint "64 word"
  | GoUint8 "8 word"
  | GoUint16 "16 word"
  | GoUint32 "32 word"
  | Tuple "goterm list"
  | Slice "goterm list"
  | Unhandled string string

text \<open>
  The output buffer is a \<open>bytes.Buffer\<close>: writing appends and never fails, so the
  \<open>binary.Write\<close> error branches are never taken. A function returns the buffer as it
  leaves it, also when it returns an error.
\<close>

definition encodeAtom :: "bytes \<Rightarrow> gostring \<Rightarrow> bytes \<times> error option" where
  "encodeAtom buf str =
     (if length str \<le> 255
      then (buf @ [TagSmallAtomUTF8, of_nat (length str)] @ str, None)
      else (buf @ [TagAtomUTF8] @ be16 (of_nat (length str)) @ str, None))"

definition encodeString :: "bytes \<Rightarrow> gostring \<Rightarrow> bytes \<times> error option" where
  "encodeString buf str = (buf @ [TagBinary] @ be32 (of_nat (length str)) @ str, None)"

definition encodeInt :: "bytes \<Rightarrow> 32 word \<Rightarrow> bytes \<times> error option" where
  "encodeInt buf i =
     (if 0 \<le>s i \<and> i \<le>s 255
      then (buf @ [TagSmallInteger, ucast i], None)
      else (buf @ [TagInteger] @ be32 i, None))"

text \<open>The header \<open>encodeTuple\<close> writes before the elements.\<close>

definition tupleHeader :: "bytes \<Rightarrow> nat \<Rightarrow> bytes" where
  "tupleHeader buf sz =
     (if sz \<le> 255
      then buf @ [TagSmallTuple, of_nat sz]
      else buf @ [TagLargeTuple] @ be32 (of_nat sz))"

text \<open>
  \<open>encodeElems\<close> is the loop \<open>for _, elem := range\<close> of \<open>encodeTuple\<close> and of
  \<open>encodeList\<close>: it stops at the first element that fails.
\<close>

fun EncodeTo :: "bytes \<Rightarrow> goterm \<Rightarrow> bytes \<times> error option"
  and encodeTuple :: "bytes \<Rightarrow> goterm list \<Rightarrow> bytes \<times> error option"
  and encodeList :: "bytes \<Rightarrow> goterm list \<Rightarrow> bytes \<times> error option"
  and encodeElems :: "bytes \<Rightarrow> goterm list \<Rightarrow> bytes \<times> error option"
where
  "EncodeTo buf (Atom s) = encodeAtom buf s"
| "EncodeTo buf (Str s) = encodeString buf s"
| "EncodeTo buf (GoInt t) = encodeInt buf (ucast t)"
| "EncodeTo buf (GoInt8 t) = encodeInt buf (scast t)"
| "EncodeTo buf (GoInt16 t) = encodeInt buf (scast t)"
| "EncodeTo buf (GoInt32 t) = encodeInt buf t"
| "EncodeTo buf (GoUint t) = encodeInt buf (ucast t)"
| "EncodeTo buf (GoUint8 t) = encodeInt buf (ucast t)"
| "EncodeTo buf (GoUint16 t) = encodeInt buf (ucast t)"
| "EncodeTo buf (GoUint32 t) = encodeInt buf t"
| "EncodeTo buf (Tuple elems) = encodeTuple buf elems"
| "EncodeTo buf (Slice list) = encodeList buf list"
| "EncodeTo buf (Unhandled kind name) = (buf, Some (ErrUnhandledType kind name))"
| "encodeTuple buf elems = encodeElems (tupleHeader buf (length elems)) elems"
| "encodeList buf list =
     (case encodeElems (buf @ [TagList] @ be32 (of_nat (length list))) list of
        (buf', Some err) \<Rightarrow> (buf', Some err)
      | (buf', None) \<Rightarrow> (buf' @ [106], None))"
| "encodeElems buf [] = (buf, None)"
| "encodeElems buf (elem # rest) =
     (case EncodeTo buf elem of
        (buf', Some err) \<Rightarrow> (buf', Some err)
      | (buf', None) \<Rightarrow> encodeElems buf' rest)"

section \<open>The input stream\<close>

text \<open>
  The decoder reads from an \<open>io.Reader\<close>; the streams of the tests, and the buffer the
  encoder fills, are \<open>bytes.Buffer\<close>s, and this is the reader modelled: the stream is
  the list of bytes not read yet. \<open>buf_Read r p\<close> is \<open>r.Read(p)\<close>: on an empty buffer it
  returns 0 and \<open>io.EOF\<close> (0 and no error when \<open>p\<close> is empty too); otherwise it copies
  as many bytes as \<open>p\<close> holds or the buffer has, and returns their number and no error.
  The slice \<open>p\<close> keeps what it held at the positions that were not written. The result is
  the slice, the count, the error and the stream after the read.
\<close>

definition buf_Read :: "bytes \<Rightarrow> bytes \<Rightarrow> bytes \<times> nat \<times> error option \<times> bytes" where
  "buf_Read r p =
     (if r = [] then (p, 0, if p = [] then None else Some EOF, r)
      else (take (length p) r @ drop (length r) p, min (length p) (length r), None,
            drop (length p) r))"

text \<open>The test \<open>err != nil && err != io.EOF\<close>: the error to return, if any.\<close>

definition notEOF :: "error option \<Rightarrow> error option" where
  "notEOF err = (case err of None \<Rightarrow> None | Some e \<Rightarrow> if e = EOF then None else Some e)"

section \<open>Decoding basic types\<close>

text \<open>
  The loop of the \<open>TagBigInteger\<close> case over the bytes of \<open>byteD\<close>, with the
  accumulators \<open>value\<close> and \<open>B\<close>, both \<open>int64\<close>: the arithmetic wraps at 64 bits.
\<close>

fun bigLoop :: "bytes \<Rightarrow> 64 word \<Rightarrow> 64 word \<Rightarrow> 64 word" where
  "bigLoop [] val B = val"
| "bigLoop (d # byteD) val B = bigLoop byteD (val + ucast d * B) (B * 256)"

text \<open>
  \<open>decodeInt\<close> returns the \<open>int64\<close> or the error, and the stream after its reads. In the
  \<open>TagSmallInteger\<close> case the second read goes into the slice that holds the tag.
\<close>

definition decodeInt :: "bytes \<Rightarrow> (error + 64 word) \<times> bytes" where
  "decodeInt r =
     (case buf_Read r [0] of (byte1, _, err, r1) \<Rightarrow>
      (case err of Some e \<Rightarrow> (Inl e, r1) | None \<Rightarrow>
       if byte1 ! 0 = TagSmallInteger then
         (case buf_Read r1 byte1 of (byte1', _, err, r2) \<Rightarrow>
          (case notEOF err of Some e \<Rightarrow> (Inl e, r2) | None \<Rightarrow>
           (Inr (ucast (byte1' ! 0)), r2)))
       else if byte1 ! 0 = TagInteger then
         (case buf_Read r1 (replicate 4 0) of (byte4, n, err, r2) \<Rightarrow>
          (case notEOF err of Some e \<Rightarrow> (Inl e, r2) | None \<Rightarrow>
           if n < 4 then (Inl (ErrIntegerBytes n), r2)
           else (Inr (scast (Uint32 byte4)), r2)))
       else if byte1 ! 0 = TagBigInteger then
         (case buf_Read r1 [0] of (byteN, _, err, r2) \<Rightarrow>
          (case err of Some e \<Rightarrow> (Inl e, r2) | None \<Rightarrow>
           (case buf_Read r2 [0] of (byteSign, _, err, r3) \<Rightarrow>
            (case err of Some e \<Rightarrow> (Inl e, r3) | None \<Rightarrow>
             (case buf_Read r3 (replicate (unat (byteN ! 0)) 0) of (byteD, n, err, r4) \<Rightarrow>
              (case notEOF err of Some e \<Rightarrow> (Inl e, r4) | None \<Rightarrow>
               if n \<noteq> unat (byteN ! 0) then (Inl ErrBigInteger, r4)
               else (Inr (if byteSign ! 0 = 1 then - bigLoop byteD 0 1 else bigLoop byteD 0 1),
                     r4)))))))
       else (Inl ErrIncorrectType, r1)))"

text \<open>The content of a length-prefixed string, after its length is known.\<close>

definition readContent :: "bytes \<Rightarrow> nat \<Rightarrow> (error + bytes) \<times> bytes" where
  "readContent r len =
     (case buf_Read r (replicate len 0) of (data, n, err, r') \<Rightarrow>
      (case notEOF err of Some e \<Rightarrow> (Inl e, r') | None \<Rightarrow>
       if n < len then (Inl ErrTruncatedData, r') else (Inr data, r')))"

definition decodeString1 :: "bytes \<Rightarrow> (error + bytes) \<times> bytes" where
  "decodeString1 r =
     (case buf_Read r [0] of (byte1, _, err, r1) \<Rightarrow>
      (case err of Some e \<Rightarrow> (Inl e, r1) | None \<Rightarrow> readContent r1 (unat (byte1 ! 0))))"

definition decodeString2 :: "bytes \<Rightarrow> (error + bytes) \<times> bytes" where
  "decodeString2 r =
     (case buf_Read r [0, 0] of (l, _, err, r1) \<Rightarrow>
      (case err of Some e \<Rightarrow> (Inl e, r1) | None \<Rightarrow> readContent r1 (unat (Uint16 l))))"

definition decodeString4 :: "bytes \<Rightarrow> (error + bytes) \<times> bytes" where
  "decodeString4 r =
     (case buf_Read r (replicate 4 0) of (l, _, err, r1) \<Rightarrow>
      (case err of Some e \<Rightarrow> (Inl e, r1) | None \<Rightarrow> readContent r1 (unat (Uint32 l))))"

definition decodeNil :: "bytes \<Rightarrow> error option \<times> bytes" where
  "decodeNil r =
     (case buf_Read r [0] of (byte1, _, err, r1) \<Rightarrow>
      (case notEOF err of Some e \<Rightarrow> (Some e, r1) | None \<Rightarrow>
       if byte1 ! 0 \<noteq> TagNil then (Some (ErrNoNil (byte1 ! 0)), r1) else (None, r1)))"

text \<open>
  The loop of \<open>decodeCharList\<close>, \<open>count\<close> times: each element is read by \<open>decodeInt\<close>
  and appended as \<open>rune(char)\<close>, the low 32 bits.
\<close>

fun charLoop :: "nat \<Rightarrow> bytes \<Rightarrow> rune list \<Rightarrow> (error + rune list) \<times> bytes" where
  "charLoop 0 r s = (Inr s, r)"
| "charLoop (Suc k) r s =
     (case decodeInt r of
        (Inl err, r') \<Rightarrow> (Inl err, r')
      | (Inr char, r') \<Rightarrow> charLoop k r' (s @ [ucast char]))"

text \<open>
  Where the terminator is missing the Go function returns the runes read so far together
  with the error; both callers drop the value of a failed call, so the model returns the
  error alone.
\<close>

definition decodeCharList :: "bytes \<Rightarrow> (error + rune list) \<times> bytes" where
  "decodeCharList r =
     (case buf_Read r (replicate 4 0) of (byte4, n, err, r1) \<Rightarrow>
      (case err of Some e \<Rightarrow> (Inl e, r1) | None \<Rightarrow>
       if n < 4 then (Inl ErrTruncatedList, r1)
       else
         (case charLoop (unat (Uint32 byte4)) r1 [] of
            (Inl e, r2) \<Rightarrow> (Inl e, r2)
          | (Inr s, r2) \<Rightarrow>
              (case decodeNil r2 of
                 (Some e, r3) \<Rightarrow> (Inl e, r3)
               | (None, r3) \<Rightarrow> (Inr s, r3)))))"

text \<open>
  The conversion \<open>string(data)\<close> of a rune slice is Go's own: each rune is written in
  UTF-8, and a rune that is no Unicode scalar value (negative, a surrogate, above
  \<open>0x10FFFF\<close>) is written as \<open>U+FFFD\<close>.
\<close>

definition encoderune :: "rune \<Rightarrow> bytes" where
  "encoderune r =
     (if r \<le> 0x7F then [ucast r]
      else if r \<le> 0x7FF then [0xC0 OR ucast (drop_bit 6 r), 0x80 OR (ucast r AND 0x3F)]
      else if r > 0x10FFFF \<or> (0xD800 \<le> r \<and> r \<le> 0xDFFF) then [0xEF, 0xBF, 0xBD]
      else if r \<le> 0xFFFF then
        [0xE0 OR ucast (drop_bit 12 r), 0x80 OR (ucast (drop_bit 6 r) AND 0x3F),
         0x80 OR (ucast r AND 0x3F)]
      else
        [0xF0 OR ucast (drop_bit 18 r), 0x80 OR (ucast (drop_bit 12 r) AND 0x3F),
         0x80 OR (ucast (drop_bit 6 r) AND 0x3F), 0x80 OR (ucast r AND 0x3F)])"

definition runesToString :: "rune list \<Rightarrow> gostring" where
  "runesToString s = concat (map encoderune s)"

definition decodeString :: "bytes \<Rightarrow> (error + gostring) \<times> bytes" where
  "decodeString r =
     (case buf_Read r [0] of (byte1, _, err, r1) \<Rightarrow>
      (case err of Some e \<Rightarrow> (Inl e, r1) | None \<Rightarrow>
       if byte1 ! 0 = TagSmallAtomUTF8 then decodeString1 r1
       else if byte1 ! 0 = TagDeprecatedAtom \<or> byte1 ! 0 = TagAtomUTF8 \<or> byte1 ! 0 = TagString
       then decodeString2 r1
       else if byte1 ! 0 = TagBinary then decodeString4 r1
       else if byte1 ! 0 = TagList then
         (case decodeCharList r1 of
            (Inl e, r2) \<Rightarrow> (Inl e, r2)
          | (Inr data, r2) \<Rightarrow> (Inr (runesToString data), r2))
       else (Inl (ErrIncorrectTypeTag (byte1 ! 0)), r1)))"

section \<open>Decoding into a target\<close>

text \<open>
  The target of a decode call is a Go value reached through a pointer; \<open>decodeData\<close>
  switches on its kind and stores into it. A target is modelled by its kind together with
  the contents it holds, and every decoding function returns the target as it leaves it:
  \<open>TInt8\<close> is an \<open>int8\<close>; \<open>TInt k\<close> an \<open>int\<close> (64 bits), \<open>int16\<close>, \<open>int32\<close> or
  \<open>int64\<close>, read as a sign-extended 64-bit value; \<open>TString\<close> a \<open>string\<close>;
  \<open>TBertString\<close> a struct whose type is named \<open>String\<close>, with its fields \<open>Value\<close> and
  \<open>ErlangType\<close>; \<open>TStruct\<close> any other struct, as the list of its fields; \<open>TOther\<close> a
  value of any other kind, with the name of the kind.
\<close>

datatype intkind = KInt | KInt16 | KInt32 | KInt64

text \<open>
  Modelled from the spec: \<open>StringTypeAtom\<close> and \<open>StringTypeString\<close> are integer constants
  declared in a file of the package other than the encoder and the decoder; they tell the
  atom-like from the string-like wire forms, and only that they are two values is used.
\<close>

datatype strtype = StringTypeAtom | StringTypeString

datatype target =
    TInt8 "8 word"
  | TInt intkind "64 word"
  | TString gostring
  | TBertString gostring strtype
  | TStruct "target list"
  | TOther string

text \<open>\<open>val.SetInt(i)\<close> converts the \<open>int64\<close> to the type of the target.\<close>

definition SetInt :: "intkind \<Rightarrow> 64 word \<Rightarrow> 64 word" where
  "SetInt k i =
     (case k of
        KInt \<Rightarrow> i
      | KInt16 \<Rightarrow> scast (ucast i :: 16 word)
      | KInt32 \<Rightarrow> scast (ucast i :: 32 word)
      | KInt64 \<Rightarrow> i)"

text \<open>
  \<open>decodeBertString\<close> returns the new contents of the two fields, which it sets only
  after a successful read.
\<close>

definition decodeBertString ::
  "bytes \<Rightarrow> gostring \<times> strtype \<Rightarrow> error option \<times> bytes \<times> gostring \<times> strtype" where
  "decodeBertString r val =
     (case buf_Read r [0] of (byte1, _, err, r1) \<Rightarrow>
      (case err of Some e \<Rightarrow> (Some e, r1, val) | None \<Rightarrow>
       if byte1 ! 0 = TagSmallAtomUTF8 then
         (case decodeString1 r1 of
            (Inl e, r2) \<Rightarrow> (Some e, r2, val)
          | (Inr data, r2) \<Rightarrow> (None, r2, data, StringTypeAtom))
       else if byte1 ! 0 = TagDeprecatedAtom \<or> byte1 ! 0 = TagAtomUTF8 then
         (case decodeString2 r1 of
            (Inl e, r2) \<Rightarrow> (Some e, r2, val)
          | (Inr data, r2) \<Rightarrow> (None, r2, data, StringTypeAtom))
       else if byte1 ! 0 = TagString then
         (case decodeString2 r1 of
            (Inl e, r2) \<Rightarrow> (Some e, r2, val)
          | (Inr data, r2) \<Rightarrow> (None, r2, data, StringTypeString))
       else if byte1 ! 0 = TagBinary then
         (case decodeString4 r1 of
            (Inl e, r2) \<Rightarrow> (Some e, r2, val)
          | (Inr data, r2) \<Rightarrow> (None, r2, data, StringTypeString))
       else if byte1 ! 0 = TagList then
         (case decodeCharList r1 of
            (Inl e, r2) \<Rightarrow> (Some e, r2, val)
          | (Inr data, r2) \<Rightarrow> (None, r2, runesToString data, StringTypeString))
       else (Some (ErrBertString (byte1 ! 0)), r1, val)))"

text \<open>
  Modelled from the spec: \<open>decodeStruct\<close>, which \<open>decodeData\<close> calls for a struct target,
  is defined in a file of the package other than the encoder and the decoder. The
  specification's words for an aggregate target are:
  read the tag byte, which must be SmallTuple or LargeTuple; read the arity (one byte
  after SmallTuple, four big-endian bytes after LargeTuple); the arity must equal the
  number of declared target fields, or the call fails at once with a count-mismatch error
  and binds nothing; then each field is decoded from the next tuple element, against the
  field's own shape, in declared order. A read that obtains fewer bytes than required is
  a truncation error. \<open>decodeStruct\<close>, \<open>decodeTuple\<close> (the arity check) and \<open>decodeFields\<close>
  (the loop over the fields) follow these words; the fields are decoded by \<open>decodeData\<close>.
\<close>

fun decodeData :: "bytes \<Rightarrow> target \<Rightarrow> error option \<times> bytes \<times> target"
  and decodeStruct :: "bytes \<Rightarrow> target list \<Rightarrow> error option \<times> bytes \<times> target list"
  and decodeTuple :: "bytes \<Rightarrow> nat \<Rightarrow> target list \<Rightarrow> error option \<times> bytes \<times> target list"
  and decodeFields :: "bytes \<Rightarrow> target list \<Rightarrow> error option \<times> bytes \<times> target list"
where
  "decodeData r (TInt8 v) = (Some ErrRange, r, TInt8 v)"
| "decodeData r (TInt k v) =
     (case decodeInt r of
        (Inl err, r') \<Rightarrow> (Some err, r', TInt k v)
      | (Inr i, r') \<Rightarrow> (None, r', TInt k (SetInt k i)))"
| "decodeData r (TString v) =
     (case decodeString r of
        (Inl err, r') \<Rightarrow> (Some err, r', TString v)
      | (Inr s, r') \<Rightarrow> (None, r', TString s))"
| "decodeData r (TBertString v t) =
     (case decodeBertString r (v, t) of (err, r', v', t') \<Rightarrow> (err, r', TBertString v' t'))"
| "decodeData r (TStruct fields) =
     (case decodeStruct r fields of (err, r', fields') \<Rightarrow> (err, r', TStruct fields'))"
| "decodeData r (TOther kind) = (Some (ErrUnhandledTarget kind), r, TOther kind)"
| "decodeStruct r fields =
     (case buf_Read r [0] of (byte1, _, err, r1) \<Rightarrow>
      (case err of Some e \<Rightarrow> (Some e, r1, fields) | None \<Rightarrow>
       if byte1 ! 0 = TagSmallTuple then
         (case buf_Read r1 [0] of (arity1, n, _, r2) \<Rightarrow>
          if n < 1 then (Some ErrTruncatedData, r2, fields)
          else decodeTuple r2 (unat (arity1 ! 0)) fields)
       else if byte1 ! 0 = TagLargeTuple then
         (case buf_Read r1 (replicate 4 0) of (arity4, n, _, r2) \<Rightarrow>
          if n < 4 then (Some ErrTruncatedData, r2, fields)
          else decodeTuple r2 (unat (Uint32 arity4)) fields)
       else (Some (ErrNotTuple (byte1 ! 0)), r1, fields)))"
| "decodeTuple r arity fields =
     (if arity \<noteq> length fields then (Some (ErrCountMismatch arity (length fields)), r, fields)
      else decodeFields r fields)"
| "decodeFields r [] = (None, r, [])"
| "decodeFields r (field # rest) =
     (case decodeData r field of
        (Some err, r', field') \<Rightarrow> (Some err, r', field' # rest)
      | (None, r', field') \<Rightarrow>
          (case decodeFields r' rest of (err, r'', rest') \<Rightarrow> (err, r'', field' # rest')))"

text \<open>The entry point: one byte, which must be the version marker, then the term.\<close>

definition Decode :: "bytes \<Rightarrow> target \<Rightarrow> error option \<times> bytes \<times> target" where
  "Decode r term =
     (case buf_Read r [0] of (byte1, _, err, r1) \<Rightarrow>
      (case err of Some e \<Rightarrow> (Some e, r1, term) | None \<Rightarrow>
       if byte1 ! 0 \<noteq> TagETFVersion then (Some (ErrVersionTag (byte1 ! 0)), r1, term)
       else decodeData r1 term))"

section \<open>Notions of the specification\<close>

text \<open>
  The mathematical value of a Go integer of one of the types \<open>EncodeTo\<close> accepts: signed
  types are read in two's complement, unsigned types as they are.
\<close>

definition goIntValue :: "goterm \<Rightarrow> int option" where
  "goIntValue x =
     (case x of
        GoInt t \<Rightarrow> Some (sint t) | GoInt8 t \<Rightarrow> Some (sint t)
      | GoInt16 t \<Rightarrow> Some (sint t) | GoInt32 t \<Rightarrow> Some (sint t)
      | GoUint t \<Rightarrow> Some (uint t) | GoUint8 t \<Rightarrow> Some (uint t)
      | GoUint16 t \<Rightarrow> Some (uint t) | GoUint32 t \<Rightarrow> Some (uint t)
      | _ \<Rightarrow> None)"


text \<open>
  The wire tags a term of each kind may begin with: the first byte of its own encoding.
\<close>

definition wireTags :: "goterm \<Rightarrow> byte set" where
  "wireTags t =
     (case t of
        Atom _ \<Rightarrow> {TagSmallAtomUTF8, TagAtomUTF8}
      | Str _ \<Rightarrow> {TagBinary}
      | Tuple _ \<Rightarrow> {TagSmallTuple, TagLargeTuple}
      | Slice _ \<Rightarrow> {TagList}
      | Unhandled _ _ \<Rightarrow> {}
      | _ \<Rightarrow> {TagSmallInteger, TagInteger})"

section \<open>Big-endian bytes and casts\<close>

lemma Uint32_be32: "Uint32 (be32 w) = w"
  unfolding Uint32_def be32_def
  apply simp
  apply (rule bit_word_eqI)
  apply (auto simp add: bit_simps)
  subgoal for n by (cases "n < 24") auto
  done

lemma Uint16_be16: "Uint16 (be16 w) = w"
  unfolding Uint16_def be16_def
  apply simp
  apply (rule bit_word_eqI)
  apply (auto simp add: bit_simps)
  done

lemma sint_of_int32: "- (2^31) \<le> v \<Longrightarrow> v < 2^31 \<Longrightarrow> sint (word_of_int v :: 32 word) = v"
  by (simp add: sint_sbintrunc' signed_take_bit_int_eq_self)

lemma encodeInt_of_int:
  "- (2^31) \<le> v \<Longrightarrow> v < 2^31 \<Longrightarrow>
   encodeInt buf (word_of_int v) =
     (if 0 \<le> v \<and> v \<le> 255 then (buf @ [TagSmallInteger, word_of_int v], None)
      else (buf @ TagInteger # be32 (word_of_int v), None))"
  unfolding encodeInt_def
  by (simp add: word_sle_eq sint_of_int32 ucast_down_wi is_down)

lemma ucast64_32: "(ucast (t :: 64 word) :: 32 word) = word_of_int (sint t)"
proof -
  have "(ucast :: 64 word \<Rightarrow> 32 word) = scast"
    by (rule down_cast_same) (simp add: is_down)
  then show ?thesis by simp
qed


section \<open>The encoder appends to its buffer\<close>

lemma encodeElems_frame:
  assumes "\<And>e b. e \<in> set es \<Longrightarrow> EncodeTo b e = (b @ fst (EncodeTo [] e), snd (EncodeTo [] e))"
  shows "encodeElems buf es = (buf @ fst (encodeElems [] es), snd (encodeElems [] es))"
  using assms
proof (induction es arbitrary: buf)
  case Nil
  show ?case by simp
next
  case (Cons e es)
  obtain x err where e0: "EncodeTo [] e = (x, err)" by (cases "EncodeTo [] e")
  have eb: "EncodeTo b e = (b @ x, err)" for b
  proof -
    have "EncodeTo b e = (b @ fst (EncodeTo [] e), snd (EncodeTo [] e))"
      by (rule Cons.prems) simp
    then show ?thesis unfolding e0 by simp
  qed
  have ih: "encodeElems b es = (b @ fst (encodeElems [] es), snd (encodeElems [] es))" for b
    by (rule Cons.IH) (rule Cons.prems, simp)
  show ?case
  proof (cases err)
    case (Some a)
    then show ?thesis by (simp add: eb [of buf] e0)
  next
    case None
    have "encodeElems buf (e # es) = encodeElems (buf @ x) es"
      by (simp add: eb [of buf] None)
    moreover have "encodeElems [] (e # es) = encodeElems x es"
      by (simp add: e0 None)
    ultimately show ?thesis
      by (simp only: ih [of "buf @ x"] ih [of x] fst_conv snd_conv append_assoc)
  qed
qed

lemma EncodeTo_frame: "EncodeTo buf t = (buf @ fst (EncodeTo [] t), snd (EncodeTo [] t))"
proof (induction t arbitrary: buf)
  case (Atom s)
  show ?case by (simp add: encodeAtom_def)
next
  case (Str s)
  show ?case by (simp add: encodeString_def)
next
  case (Tuple es)
  have f: "\<And>b. encodeElems b es = (b @ fst (encodeElems [] es), snd (encodeElems [] es))"
    by (rule encodeElems_frame) (rule Tuple.IH)
  show ?case
    by (simp add: f [of "tupleHeader buf (length es)"] f [of "tupleHeader [] (length es)"])
      (simp add: tupleHeader_def)
next
  case (Slice es)
  have f: "\<And>b. encodeElems b es = (b @ fst (encodeElems [] es), snd (encodeElems [] es))"
    by (rule encodeElems_frame) (rule Slice.IH)
  show ?case
    by (cases "snd (encodeElems [] es)")
      (simp_all add: f [of "buf @ TagList # be32 (word_of_nat (length es))"]
        f [of "TagList # be32 (word_of_nat (length es))"])
qed (simp_all add: encodeInt_def)

section \<open>Reads that find their bytes\<close>

lemma buf_Read_exact:
  "length p = length xs \<Longrightarrow> buf_Read (xs @ rest) p = (xs, length xs, None, rest)"
  by (auto simp add: buf_Read_def)

lemma buf_Read_1: "buf_Read (x # rest) [b] = ([x], 1, None, rest)"
  by (simp add: buf_Read_def)

lemma buf_Read_4:
  "buf_Read (a # b # c # d # rest) (replicate 4 0) = ([a, b, c, d], 4, None, rest)"
  using buf_Read_exact [of "replicate 4 0" "[a, b, c, d]" rest] by simp

lemma be32_cons: "be32 w @ rest = ucast (drop_bit 24 w) # ucast (drop_bit 16 w) # ucast (drop_bit 8 w) # ucast w # rest"
  by (simp add: be32_def)

lemma small_byte:
  "0 \<le>s (c :: 32 word) \<Longrightarrow> c \<le>s 255 \<Longrightarrow> (ucast (ucast c :: 8 word) :: 64 word) = scast c"
proof -
  assume a: "0 \<le>s c" "c \<le>s 255"
  have b: "0 \<le> sint c" "sint c \<le> 255" using a by (simp_all add: word_sle_eq)
  have "uint c = take_bit 32 (sint c)" using uint_sint [of c] by simp
  also have "\<dots> = sint c" using b by (simp add: take_bit_int_eq_self)
  finally have s: "sint c = uint c" by simp
  have u: "uint c \<le> 255" using b s by simp
  have "uint (ucast c :: 8 word) = take_bit 8 (uint c)"
    by (simp add: unsigned_ucast_eq)
  also have "\<dots> = uint c" using u by (simp add: take_bit_int_eq_self)
  finally have e: "uint (ucast c :: 8 word) = sint c" using s by simp
  have "(ucast (ucast c :: 8 word) :: 64 word) = word_of_int (uint (ucast c :: 8 word))"
    by simp
  also have "\<dots> = word_of_int (sint c)" by (simp only: e)
  also have "\<dots> = scast c" by simp
  finally show ?thesis .
qed

lemma decodeInt_SmallInteger: "decodeInt (TagSmallInteger # b # rest) = (Inr (ucast b), rest)"
  by (simp add: decodeInt_def buf_Read_1 notEOF_def)

lemma decodeInt_Integer: "decodeInt (TagInteger # be32 w @ rest) = (Inr (scast w), rest)"
  unfolding be32_cons
  apply (simp add: decodeInt_def buf_Read_1 buf_Read_4 notEOF_def del: replicate.simps replicate_Suc)
  apply (simp add: be32_def [symmetric] Uint32_be32 del: replicate.simps replicate_Suc)
  done

lemma truncated_length_prefix_accepted:
  "Decode [TagETFVersion, TagDeprecatedAtom, 0] (TString v) = (None, [], TString [])"
  by (simp add: Decode_def decodeString_def decodeString2_def readContent_def buf_Read_def notEOF_def Uint16_def)



lemma decodeInt_encodeInt: "decodeInt (fst (encodeInt [] c) @ rest) = (Inr (scast c), rest)"
proof (cases "0 \<le>s c \<and> c \<le>s 255")
  case True
  then show ?thesis by (simp add: encodeInt_def decodeInt_SmallInteger small_byte)
next
  case False
  have "fst (encodeInt [] c) = TagInteger # be32 c" by (simp add: encodeInt_def False)
  then show ?thesis using decodeInt_Integer [of c rest] by simp
qed

lemma rune_of_scast: "(ucast (scast (c :: 32 word) :: 64 word) :: 32 word) = c"
proof -
  have "(ucast :: 64 word \<Rightarrow> 32 word) = scast"
    by (rule down_cast_same) (simp add: is_down)
  then show ?thesis by (simp add: scast_up_scast_id is_up)
qed

lemma charLoop_encoded:
  "charLoop (length cs) (concat (map (\<lambda>c. fst (encodeInt [] c)) cs) @ rest) s = (Inr (s @ cs), rest)"
proof (induction cs arbitrary: s)
  case Nil
  show ?case by simp
next
  case (Cons c cs)
  show ?case
    using Cons.IH [of "s @ [c]"] by (simp add: decodeInt_encodeInt rune_of_scast)
qed

lemma unat_of_nat32: "n < 2 ^ 32 \<Longrightarrow> unat (word_of_nat n :: 32 word) = n"
  by (simp add: unat_of_nat)

lemma unat_of_nat16: "n < 2 ^ 16 \<Longrightarrow> unat (word_of_nat n :: 16 word) = n"
  by (simp add: unat_of_nat)

lemma unat_of_nat8: "n \<le> 255 \<Longrightarrow> unat (word_of_nat n :: 8 word) = n"
  by (simp add: unat_of_nat)

lemma decodeNil_found: "decodeNil (TagNil # rest) = (None, rest)"
  by (simp add: decodeNil_def buf_Read_1 notEOF_def)

lemma decodeNil_missing:
  "rest = [] \<or> hd rest \<noteq> TagNil \<Longrightarrow>
   decodeNil rest = (Some (ErrNoNil (if rest = [] then 0 else hd rest)), drop 1 rest)"
  by (cases rest) (auto simp add: decodeNil_def buf_Read_def notEOF_def)

lemma decodeCharList_encoded:
  "length cs < 2 ^ 32 \<Longrightarrow>
   decodeCharList (be32 (of_nat (length cs)) @ concat (map (\<lambda>c. fst (encodeInt [] c)) cs) @ rest) =
     (case decodeNil rest of (Some e, r) \<Rightarrow> (Inl e, r) | (None, r) \<Rightarrow> (Inr cs, r))"
  unfolding be32_cons
  apply (simp add: decodeCharList_def buf_Read_4 del: replicate.simps replicate_Suc)
  apply (simp add: be32_def [symmetric] Uint32_be32 unat_of_nat32 charLoop_encoded del: replicate.simps replicate_Suc)
  done

lemma readContent_exact: "readContent (s @ rest) (length s) = (Inr s, rest)"
  by (simp add: readContent_def buf_Read_exact notEOF_def)

lemma decodeString1_exact:
  "length s \<le> 255 \<Longrightarrow> decodeString1 (of_nat (length s) # s @ rest) = (Inr s, rest)"
  by (simp add: decodeString1_def buf_Read_1 unat_of_nat8 readContent_exact)

lemma buf_Read_2: "buf_Read (a # b # rest) [0, 0] = ([a, b], 2, None, rest)"
  by (simp add: buf_Read_def)

lemma decodeString2_exact:
  "length s < 2 ^ 16 \<Longrightarrow> decodeString2 (be16 (of_nat (length s)) @ s @ rest) = (Inr s, rest)"
proof -
  assume a: "length s < 2 ^ 16"
  have "buf_Read (be16 (of_nat (length s)) @ s @ rest) [0, 0] =
      (be16 (of_nat (length s)), 2, None, s @ rest)"
    by (simp add: be16_def buf_Read_2)
  then show ?thesis
    using a by (simp add: decodeString2_def Uint16_be16 unat_of_nat16 readContent_exact)
qed

lemma decodeString4_exact:
  "length s < 2 ^ 32 \<Longrightarrow> decodeString4 (be32 (of_nat (length s)) @ s @ rest) = (Inr s, rest)"
proof -
  assume a: "length s < 2 ^ 32"
  have "buf_Read (be32 (of_nat (length s)) @ s @ rest) (replicate 4 0) =
      (be32 (of_nat (length s)), 4, None, s @ rest)"
    unfolding be32_cons by (simp only: buf_Read_4) (simp add: be32_def)
  then show ?thesis
    using a by (simp add: decodeString4_def Uint32_be32 unat_of_nat32 readContent_exact)
qed

section \<open>Integers and the version marker\<close>

lemma EncodeTo_int:
  "goIntValue x = Some v \<Longrightarrow> EncodeTo buf x = encodeInt buf (word_of_int v)"
  by (cases x) (auto simp add: goIntValue_def ucast64_32)

lemma Decode_version: "Decode (TagETFVersion # r) term = decodeData r term"
  by (simp add: Decode_def buf_Read_1)


section \<open>Text forms, tuples of text and the first byte written\<close>

lemma decodeString_SmallAtom:
  "length s \<le> 255 \<Longrightarrow>
   decodeString (TagSmallAtomUTF8 # of_nat (length s) # s @ rest) = (Inr s, rest)"
  by (simp add: decodeString_def buf_Read_1 decodeString1_exact)

lemma decodeString_16:
  "length s < 2 ^ 16 \<Longrightarrow> tag \<in> {TagAtomUTF8, TagDeprecatedAtom, TagString} \<Longrightarrow>
   decodeString (tag # be16 (of_nat (length s)) @ s @ rest) = (Inr s, rest)"
  by (auto simp add: decodeString_def buf_Read_1 decodeString2_exact)

lemma decodeString_Binary:
  "length s < 2 ^ 32 \<Longrightarrow>
   decodeString (TagBinary # be32 (of_nat (length s)) @ s @ rest) = (Inr s, rest)"
  by (simp add: decodeString_def buf_Read_1 decodeString4_exact)

lemma decodeString_List:
  "length cs < 2 ^ 32 \<Longrightarrow>
   decodeString (TagList # be32 (of_nat (length cs)) @
       concat (map (\<lambda>c. fst (encodeInt [] c)) cs) @ rest) =
     (case decodeNil rest of
        (Some e, r) \<Rightarrow> (Inl e, r)
      | (None, r) \<Rightarrow> (Inr (runesToString cs), r))"
  by (simp add: decodeString_def buf_Read_1 decodeCharList_encoded split: prod.splits option.splits)

lemma decodeFields_strings:
  "length olds = length ss \<Longrightarrow> \<forall>s\<in>set ss. length s < 2 ^ 32 \<Longrightarrow>
   decodeFields (concat (map (\<lambda>s. fst (encodeString [] s)) ss) @ rest) (map TString olds) =
     (None, rest, map TString ss)"
proof (induction olds ss rule: list_induct2)
  case Nil
  show ?case by simp
next
  case (Cons old olds s ss)
  have "decodeString (fst (encodeString [] s) @ concat (map (\<lambda>s. fst (encodeString [] s)) ss) @ rest) =
      (Inr s, concat (map (\<lambda>s. fst (encodeString [] s)) ss) @ rest)"
    using Cons.prems decodeString_Binary [of s] by (simp add: encodeString_def)
  then show ?case using Cons by simp
qed

lemma Decode_other_tag:
  "tag \<noteq> TagETFVersion \<Longrightarrow> Decode (tag # rest) term = (Some (ErrVersionTag tag), rest, term)"
  by (simp add: Decode_def buf_Read_1)

lemma encodeInt_first: "\<exists>tag rest. encodeInt buf i = (buf @ tag # rest, None) \<and> tag \<in> {TagSmallInteger, TagInteger}"
  by (simp add: encodeInt_def)

lemma EncodeTo_first:
  "snd (EncodeTo buf t) = None \<Longrightarrow>
   \<exists>tag rest. fst (EncodeTo buf t) = buf @ tag # rest \<and> tag \<in> wireTags t"
proof (cases t)
  case (Atom s)
  then show ?thesis by (simp add: encodeAtom_def wireTags_def)
next
  case (Str s)
  then show ?thesis by (simp add: encodeString_def wireTags_def)
next
  case (Tuple es)
  have f: "encodeElems (tupleHeader buf (length es)) es =
      (tupleHeader buf (length es) @ fst (encodeElems [] es), snd (encodeElems [] es))"
    by (rule encodeElems_frame) (rule EncodeTo_frame)
  have "fst (EncodeTo buf t) = tupleHeader buf (length es) @ fst (encodeElems [] es)"
    by (simp add: Tuple f)
  then show ?thesis using Tuple by (simp add: tupleHeader_def wireTags_def)
next
  case (Slice es)
  have f: "encodeElems (buf @ TagList # be32 (of_nat (length es))) es =
      ((buf @ TagList # be32 (of_nat (length es))) @ fst (encodeElems [] es), snd (encodeElems [] es))"
    by (rule encodeElems_frame) (rule EncodeTo_frame)
  show ?thesis using Slice
    by (cases "snd (encodeElems [] es)") (simp_all add: f wireTags_def)
next
  case (Unhandled k n)
  assume "snd (EncodeTo buf t) = None"
  then show ?thesis using Unhandled by simp
qed (use encodeInt_first in \<open>auto simp add: wireTags_def encodeInt_def\<close>)

section \<open>The claims\<close>

subsection \<open>C1: encoding, then decoding\<close>




subsection \<open>C2: the canonical integer encoding\<close>

text \<open>
  Claim C2: for an integer of any of the accepted Go types whose value \<open>v\<close> is in the
  signed 32-bit range, the encoder appends the SmallInteger tag and the one byte \<open>v\<close>
  when \<open>0 \<le> v \<le> 255\<close>, and the Integer tag and the four big-endian bytes of \<open>v\<close>
  otherwise. The output is a function of the value alone: neither the Go type nor any
  other argument takes part.
\<close>

theorem canonical_integer_encoding:
  "goIntValue x = Some v \<Longrightarrow> - (2 ^ 31) \<le> v \<Longrightarrow> v < 2 ^ 31 \<Longrightarrow>
   EncodeTo buf x =
     (if 0 \<le> v \<and> v \<le> 255 then (buf @ [TagSmallInteger, word_of_int v], None)
      else (buf @ TagInteger # be32 (word_of_int v), None))"
  by (simp only: EncodeTo_int encodeInt_of_int)

theorem canonical_integer_encoding_witness:
  "EncodeTo [] (GoUint8 42) = ([TagSmallInteger, 42], None) \<and>
   EncodeTo [] (GoInt16 (- 256)) = ([TagInteger, 255, 255, 255, 0], None)"
  using canonical_integer_encoding [of "GoUint8 42" 42 "[]"]
    canonical_integer_encoding [of "GoInt16 (- 256)" "- 256" "[]"]
  by (simp add: goIntValue_def be32_def)

subsection \<open>C3: integers outside the 32-bit range\<close>

text \<open>
  Claim C3 as stated, that an integer outside the signed 32-bit range makes the encoder
  fail, is false: the \<open>uint32\<close> value 4294967295 is encoded without an error, as the
  bytes of the \<open>int32\<close> value -1.
\<close>

theorem out_of_range_integer_counterexample:
  "goIntValue (GoUint32 4294967295) = Some 4294967295 \<and>
   EncodeTo [] (GoUint32 4294967295) = ([TagInteger, 255, 255, 255, 255], None) \<and>
   EncodeTo [] (GoInt32 (- 1)) = ([TagInteger, 255, 255, 255, 255], None)"
  by code_simp

text \<open>
  Claim C3 as amended: an integer of an accepted Go type is encoded without an error
  whatever its value, and as the \<open>int32\<close> that has its low 32 bits, read in two's
  complement.
\<close>

theorem integer_encoding_wraps:
  "goIntValue x = Some v \<Longrightarrow>
   snd (EncodeTo buf x) = None \<and>
   EncodeTo buf x = EncodeTo buf (GoInt32 (word_of_int v)) \<and>
   sint (word_of_int v :: 32 word) = signed_take_bit 31 v"
  by (simp add: EncodeTo_int sint_sbintrunc') (simp add: encodeInt_def)

theorem integer_encoding_wraps_witness:
  "goIntValue (GoInt 4294967301) = Some 4294967301 \<and>
   (word_of_int 4294967301 :: 32 word) = 5 \<and>
   snd (EncodeTo [] (GoInt 4294967301)) = None \<and>
   EncodeTo [] (GoInt 4294967301) = EncodeTo [] (GoInt32 (word_of_int 4294967301)) \<and>
   sint (word_of_int 4294967301 :: 32 word) = signed_take_bit 31 4294967301"
proof -
  have h: "goIntValue (GoInt 4294967301) = Some 4294967301" by (simp add: goIntValue_def)
  have e: "(word_of_int 4294967301 :: 32 word) = 5" by simp
  show ?thesis using integer_encoding_wraps [OF h, of "[]"] h e by blast
qed

subsection \<open>C4: an 8-bit integer target\<close>

text \<open>
  Claim C4: for every stream, decoding a term into an \<open>int8\<close> target fails with
  \<open>ErrRange\<close>, the error of its own that callers compare with, and reads nothing: the
  stream and the target are returned as they were. Through \<open>Decode\<close>, only the version
  marker has been read by then.
\<close>

theorem int8_target_rejected:
  "decodeData r (TInt8 v) = (Some ErrRange, r, TInt8 v) \<and>
   Decode (TagETFVersion # r) (TInt8 v) = (Some ErrRange, r, TInt8 v)"
  by (simp add: Decode_def buf_Read_1)

subsection \<open>C5: one text, five wire forms\<close>

text \<open>
  Claim C5: a text target receives the same string from every accepted wire form of the
  same content: the bytes \<open>s\<close> under SmallAtomUTF8 (one length byte), under AtomUTF8,
  DeprecatedAtom or String (two length bytes), under Binary (four length bytes), and the
  list of the code points \<open>cs\<close> whose UTF-8 form is \<open>s\<close> under List, closed by Nil. Each
  decodes to \<open>s\<close> and leaves the bytes that follow the term.
\<close>

theorem text_tags_normalize:
  "(length s \<le> 255 \<longrightarrow>
      Decode (TagETFVersion # TagSmallAtomUTF8 # of_nat (length s) # s @ rest) (TString old) =
        (None, rest, TString s)) \<and>
   (length s < 2 ^ 16 \<and> tag \<in> {TagAtomUTF8, TagDeprecatedAtom, TagString} \<longrightarrow>
      Decode (TagETFVersion # tag # be16 (of_nat (length s)) @ s @ rest) (TString old) =
        (None, rest, TString s)) \<and>
   (length s < 2 ^ 32 \<longrightarrow>
      Decode (TagETFVersion # TagBinary # be32 (of_nat (length s)) @ s @ rest) (TString old) =
        (None, rest, TString s)) \<and>
   (length cs < 2 ^ 32 \<and> runesToString cs = s \<longrightarrow>
      Decode (TagETFVersion # TagList # be32 (of_nat (length cs)) @
          concat (map (\<lambda>c. fst (encodeInt [] c)) cs) @ TagNil # rest) (TString old) =
        (None, rest, TString s))"
  by (auto simp add: Decode_version decodeString_SmallAtom decodeString_16 decodeString_Binary
      decodeString_List decodeNil_found simp del: insert_iff)

theorem text_tags_normalize_witness:
  "Decode [131, 119, 2, 111, 107] (TString []) = (None, [], TString [111, 107]) \<and>
   Decode [131, 118, 0, 2, 111, 107] (TString []) = (None, [], TString [111, 107]) \<and>
   Decode [131, 109, 0, 0, 0, 2, 111, 107] (TString []) = (None, [], TString [111, 107]) \<and>
   Decode [131, 108, 0, 0, 0, 2, 97, 111, 97, 107, 106] (TString []) = (None, [], TString [111, 107])"
proof -
  have r: "runesToString [111, 107] = [111, 107]" by (simp add: runesToString_def encoderune_def)
  show ?thesis
    using text_tags_normalize [of "[111, 107]" "[]" "[]" TagAtomUTF8 "[111, 107]"] r
    by (simp add: encodeInt_def word_sle_eq be16_def be32_def)
qed

subsection \<open>C6: tuple arity against the fields of the target\<close>

text \<open>
  Claim C6: a tuple whose arity differs from the number of fields of the struct target
  fails with the count-mismatch error as soon as the arity is read, under SmallTuple and
  under LargeTuple: the elements are not read and no field is changed. A tuple of as many
  texts as the target has text fields fills the fields with the elements, in order.
\<close>

theorem tuple_arity_enforced:
  "(unat a \<noteq> length fields \<longrightarrow>
      Decode (TagETFVersion # TagSmallTuple # a # rest) (TStruct fields) =
        (Some (ErrCountMismatch (unat a) (length fields)), rest, TStruct fields)) \<and>
   (n < 2 ^ 32 \<and> n \<noteq> length fields \<longrightarrow>
      Decode (TagETFVersion # TagLargeTuple # be32 (of_nat n) @ rest) (TStruct fields) =
        (Some (ErrCountMismatch n (length fields)), rest, TStruct fields)) \<and>
   (length ss \<le> 255 \<and> length olds = length ss \<and> (\<forall>s\<in>set ss. length s < 2 ^ 32) \<longrightarrow>
      Decode (TagETFVersion # TagSmallTuple # of_nat (length ss) #
          concat (map (\<lambda>s. fst (encodeString [] s)) ss) @ rest) (TStruct (map TString olds)) =
        (None, rest, TStruct (map TString ss)))"
proof (intro conjI impI)
  assume "unat a \<noteq> length fields"
  then show "Decode (TagETFVersion # TagSmallTuple # a # rest) (TStruct fields) =
        (Some (ErrCountMismatch (unat a) (length fields)), rest, TStruct fields)"
    by (simp add: Decode_version buf_Read_1)
next
  assume b: "n < 2 ^ 32 \<and> n \<noteq> length fields"
  have "buf_Read (be32 (of_nat n) @ rest) (replicate 4 0) = (be32 (of_nat n), 4, None, rest)"
    unfolding be32_cons by (simp only: buf_Read_4) (simp add: be32_def)
  then show "Decode (TagETFVersion # TagLargeTuple # be32 (of_nat n) @ rest) (TStruct fields) =
        (Some (ErrCountMismatch n (length fields)), rest, TStruct fields)"
    using b by (simp add: Decode_version buf_Read_1 Uint32_be32 unat_of_nat32 del: replicate.simps)
next
  assume c: "length ss \<le> 255 \<and> length olds = length ss \<and> (\<forall>s\<in>set ss. length s < 2 ^ 32)"
  then show "Decode (TagETFVersion # TagSmallTuple # of_nat (length ss) #
          concat (map (\<lambda>s. fst (encodeString [] s)) ss) @ rest) (TStruct (map TString olds)) =
        (None, rest, TStruct (map TString ss))"
    by (simp add: Decode_version buf_Read_1 unat_of_nat8 decodeFields_strings)
qed

theorem tuple_arity_enforced_witness:
  "Decode [131, 104, 2, 109, 0, 0, 0, 1, 65, 109, 0, 0, 0, 1, 66]
      (TStruct [TString [], TString [], TString []]) =
     (Some (ErrCountMismatch 2 3), [109, 0, 0, 0, 1, 65, 109, 0, 0, 0, 1, 66],
      TStruct [TString [], TString [], TString []]) \<and>
   Decode [131, 105, 0, 0, 0, 2, 109, 0, 0, 0, 1, 65, 109, 0, 0, 0, 1, 66]
      (TStruct [TString [], TString [], TString []]) =
     (Some (ErrCountMismatch 2 3), [109, 0, 0, 0, 1, 65, 109, 0, 0, 0, 1, 66],
      TStruct [TString [], TString [], TString []]) \<and>
   Decode [131, 104, 2, 109, 0, 0, 0, 1, 65, 109, 0, 0, 0, 1, 66]
      (TStruct [TString [], TString []]) =
     (None, [], TStruct [TString [65], TString [66]])"
  using tuple_arity_enforced [of 2 "[TString [], TString [], TString []]"
      "[109, 0, 0, 0, 1, 65, 109, 0, 0, 0, 1, 66]" 2 "[[65], [66]]" "[[], []]"]
    tuple_arity_enforced [of 2 "[TString [], TString [], TString []]" "[]" 2 "[[65], [66]]" "[[], []]"]
  by (simp add: encodeString_def be32_def)

subsection \<open>C7: the value of a BigInteger term\<close>




subsection \<open>C8: a list of code points read as text\<close>

text \<open>
  Claim C8: after the List tag the decoder reads the four-byte count, then exactly that
  many integer terms, which it turns into code points and concatenates, and then one Nil.
  With the Nil in place the text is returned and the stream stands after the Nil. Without
  it (the stream ends, or another byte follows the last element) the call fails with the
  missing-Nil error although every element was read, and the target keeps its contents.
\<close>

theorem charlist_requires_nil:
  "length cs < 2 ^ 32 \<Longrightarrow>
   decodeCharList (be32 (of_nat (length cs)) @ concat (map (\<lambda>c. fst (encodeInt [] c)) cs) @
       TagNil # rest) = (Inr cs, rest) \<and>
   Decode (TagETFVersion # TagList # be32 (of_nat (length cs)) @
       concat (map (\<lambda>c. fst (encodeInt [] c)) cs) @ TagNil # rest) (TString old) =
     (None, rest, TString (runesToString cs)) \<and>
   (rest = [] \<or> hd rest \<noteq> TagNil \<longrightarrow>
      decodeCharList (be32 (of_nat (length cs)) @ concat (map (\<lambda>c. fst (encodeInt [] c)) cs) @
          rest) = (Inl (ErrNoNil (if rest = [] then 0 else hd rest)), drop 1 rest) \<and>
      Decode (TagETFVersion # TagList # be32 (of_nat (length cs)) @
          concat (map (\<lambda>c. fst (encodeInt [] c)) cs) @ rest) (TString old) =
        (Some (ErrNoNil (if rest = [] then 0 else hd rest)), drop 1 rest, TString old))"
proof (intro conjI impI)
  assume a: "length cs < 2 ^ 32"
  show "decodeCharList (be32 (of_nat (length cs)) @ concat (map (\<lambda>c. fst (encodeInt [] c)) cs) @
       TagNil # rest) = (Inr cs, rest)"
    using a by (simp add: decodeCharList_encoded decodeNil_found)
  show "Decode (TagETFVersion # TagList # be32 (of_nat (length cs)) @
       concat (map (\<lambda>c. fst (encodeInt [] c)) cs) @ TagNil # rest) (TString old) =
     (None, rest, TString (runesToString cs))"
    using a by (simp add: Decode_version decodeString_List decodeNil_found)
  assume b: "rest = [] \<or> hd rest \<noteq> TagNil"
  show "decodeCharList (be32 (of_nat (length cs)) @ concat (map (\<lambda>c. fst (encodeInt [] c)) cs) @
          rest) = (Inl (ErrNoNil (if rest = [] then 0 else hd rest)), drop 1 rest)"
    using a by (simp add: decodeCharList_encoded decodeNil_missing [OF b])
  show "Decode (TagETFVersion # TagList # be32 (of_nat (length cs)) @
          concat (map (\<lambda>c. fst (encodeInt [] c)) cs) @ rest) (TString old) =
        (Some (ErrNoNil (if rest = [] then 0 else hd rest)), drop 1 rest, TString old)"
    using a by (simp add: Decode_version decodeString_List decodeNil_missing [OF b])
qed

theorem charlist_requires_nil_witness:
  "decodeCharList [0, 0, 0, 2, 97, 72, 97, 105, 106] = (Inr [72, 105], []) \<and>
   Decode [131, 108, 0, 0, 0, 2, 97, 72, 97, 105, 106] (TString []) = (None, [], TString [72, 105]) \<and>
   decodeCharList [0, 0, 0, 2, 97, 72, 97, 105] = (Inl (ErrNoNil 0), []) \<and>
   Decode [131, 108, 0, 0, 0, 2, 97, 72, 97, 105] (TString []) = (Some (ErrNoNil 0), [], TString []) \<and>
   Decode [131, 108, 0, 0, 0, 2, 97, 72, 97, 105, 97, 33] (TString []) =
     (Some (ErrNoNil 97), [33], TString [])"
proof -
  have r: "runesToString [72, 105] = [72, 105]" by (simp add: runesToString_def encoderune_def)
  show ?thesis
    using charlist_requires_nil [of "[72, 105]" "[]" "[]"]
      charlist_requires_nil [of "[72, 105]" "[97, 33]" "[]"] r
    by (simp add: encodeInt_def word_sle_eq be32_def)
qed

subsection \<open>C9: truncated streams\<close>

text \<open>
  Claim C9 asks for a truncation error whenever a read obtains fewer bytes than the term
  needs. In the SmallInteger case \<open>decodeInt\<close> ignores the end of the stream and does not
  look at the number of bytes read, unlike its Integer case: on a stream that ends after
  the tag, the call succeeds and the value is the tag byte 97, still in the one-byte slice.
\<close>

theorem truncated_small_integer_accepted:
  "Decode [TagETFVersion, TagSmallInteger] (TInt KInt v) = (None, [], TInt KInt 97)"
  by (simp add: Decode_def decodeInt_def buf_Read_def notEOF_def SetInt_def)

subsection \<open>C10: no version marker from the encoder\<close>

text \<open>
  Claim C10: whenever the encoder succeeds, the first byte it appends to the buffer is a
  wire tag of the term it was given, never the version marker 131. What it wrote is
  therefore no stream for \<open>Decode\<close>, which rejects it at that byte with the version-tag
  error, whatever the target.
\<close>

theorem encoder_writes_no_version_marker:
  "snd (EncodeTo buf t) = None \<Longrightarrow>
   \<exists>tag rest. fst (EncodeTo buf t) = buf @ tag # rest \<and> tag \<in> wireTags t \<and>
     tag \<noteq> TagETFVersion \<and>
     (\<forall>term. Decode (tag # rest) term = (Some (ErrVersionTag tag), rest, term))"
proof -
  assume "snd (EncodeTo buf t) = None"
  then obtain tag rest where a: "fst (EncodeTo buf t) = buf @ tag # rest" "tag \<in> wireTags t"
    using EncodeTo_first by blast
  have "tag \<noteq> TagETFVersion" using a(2) by (cases t) (auto simp add: wireTags_def)
  then show ?thesis using a Decode_other_tag by blast
qed

theorem encoder_writes_no_version_marker_witness:
  "snd (EncodeTo [] (Tuple [Atom [111, 107], GoInt 300])) = None \<and>
   (\<exists>tag rest. fst (EncodeTo [] (Tuple [Atom [111, 107], GoInt 300])) = [] @ tag # rest \<and>
      tag \<in> wireTags (Tuple [Atom [111, 107], GoInt 300]) \<and> tag \<noteq> TagETFVersion \<and>
      (\<forall>term. Decode (tag # rest) term = (Some (ErrVersionTag tag), rest, term)))"
proof -
  have h: "snd (EncodeTo [] (Tuple [Atom [111, 107], GoInt 300])) = None" by code_simp
  show ?thesis using h encoder_writes_no_version_marker [OF h] by blast
qed

end
